theory Spec2Isabelle
  imports Main
begin

section \<open>Data model of snake\_game.py\<close>

text \<open>
  \<^verbatim>\<open>Vec = tuple[int, int]\<close>: positions and directions are pairs of Python
  integers, which are unbounded, hence \<^typ>\<open>int\<close>.
\<close>

type_synonym Vec = "int \<times> int"

type_synonym color = "int \<times> int \<times> int"

text \<open>The frozen dataclass \<^verbatim>\<open>Config\<close>, field by field.\<close>

record config =
  cell_size :: int
  grid_width :: int
  grid_height :: int
  bg_color :: color
  snake_color :: color
  head_color :: color
  food_color :: color
  text_color :: color
  base_fps :: int
  speedup_every :: int
  speedup_amount :: int

text \<open>\<^verbatim>\<open>Config()\<close>: every field at its default, as \<^verbatim>\<open>run\<close> builds it.\<close>

definition Config :: config where
  "Config = \<lparr>cell_size = 20, grid_width = 30, grid_height = 20,
     bg_color = (18, 18, 18), snake_color = (80, 220, 120), head_color = (50, 190, 95),
     food_color = (220, 80, 80), text_color = (235, 235, 235),
     base_fps = 5, speedup_every = 5, speedup_amount = 2\<rparr>"

definition width_px :: "config \<Rightarrow> int" where
  "width_px cfg = grid_width cfg * cell_size cfg"

definition height_px :: "config \<Rightarrow> int" where
  "height_px cfg = grid_height cfg * cell_size cfg"

text \<open>The exceptions the modelled statements can raise.\<close>

datatype py_error = IndexError | ZeroDivisionError

text \<open>
  The six variables \<^verbatim>\<open>snake, direction, pending_dir, alive, score, food\<close> that
  \<^verbatim>\<open>reset_game\<close> returns and the main loop of \<^verbatim>\<open>run\<close> updates.
\<close>

record game =
  snake :: "Vec list"
  direction :: Vec
  pending_dir :: Vec
  alive :: bool
  score :: int
  food :: Vec

section \<open>Geometry\<close>

definition add :: "Vec \<Rightarrow> Vec \<Rightarrow> Vec" where
  "add a b = (fst a + fst b, snd a + snd b)"

definition inside :: "Vec \<Rightarrow> config \<Rightarrow> bool" where
  "inside pos cfg \<longleftrightarrow>
     0 \<le> fst pos \<and> fst pos < grid_width cfg \<and> 0 \<le> snd pos \<and> snd pos < grid_height cfg"

section \<open>Board sampler\<close>

text \<open>
  The list comprehension of \<^verbatim>\<open>random_empty_cell\<close>: rows \<^verbatim>\<open>y\<close> outermost,
  columns \<^verbatim>\<open>x\<close> inside, keeping the cells not in \<^verbatim>\<open>occupied\<close>.
  \<^verbatim>\<open>range(n)\<close> is \<open>[0..n - 1]\<close>, empty when \<open>n \<le> 0\<close>.
\<close>

definition empties :: "Vec set \<Rightarrow> config \<Rightarrow> Vec list" where
  "empties occupied cfg =
     [(x, y). y \<leftarrow> [0..grid_height cfg - 1], x \<leftarrow> [0..grid_width cfg - 1],
              (x, y) \<notin> occupied]"

text \<open>
  \<^verbatim>\<open>random.choice(empties)\<close> returns \<^verbatim>\<open>empties[i]\<close> for an index \<open>i\<close> below the
  length drawn by the generator. The draw is the parameter \<open>r\<close>, reduced modulo the
  length, so that every \<open>r\<close> is a possible run and every index is reached by some \<open>r\<close>.
  With no empty cell the function returns the pair \<open>(-1, -1)\<close>.
\<close>

definition random_empty_cell :: "Vec set \<Rightarrow> config \<Rightarrow> nat \<Rightarrow> Vec" where
  "random_empty_cell occupied cfg r =
     (let es = empties occupied cfg
      in if es = [] then (-1, -1) else es ! (r mod length es))"

section \<open>The game state and its transitions\<close>

text \<open>\<^verbatim>\<open>reset_game\<close> (lines 109 to 117), with the draw of its sampler call.\<close>

definition reset_game :: "config \<Rightarrow> nat \<Rightarrow> game" where
  "reset_game cfg r =
     (let start = (grid_width cfg div 2, grid_height cfg div 2);
          snake0 = [start, (fst start - 1, snd start), (fst start - 2, snd start)];
          direction0 = (1, 0)
      in \<lparr>snake = snake0, direction = direction0, pending_dir = direction0,
          alive = True, score = 0, food = random_empty_cell (set snake0) cfg r\<rparr>)"

text \<open>\<^verbatim>\<open>current_fps\<close> (lines 121 to 122); \<^verbatim>\<open>//\<close> by zero raises.\<close>

definition current_fps :: "config \<Rightarrow> int \<Rightarrow> py_error + int" where
  "current_fps cfg score_value =
     (if speedup_every cfg = 0 then Inl ZeroDivisionError
      else Inr (base_fps cfg + (score_value div speedup_every cfg) * speedup_amount cfg))"

text \<open>The keys the event loop tells apart; every other key is \<open>K_other\<close>.\<close>

datatype key =
  K_UP | K_w | K_DOWN | K_s | K_LEFT | K_a | K_RIGHT | K_d | K_r | K_ESCAPE | K_other

text \<open>
  Direction input (lines 139 to 152): under \<^verbatim>\<open>if alive\<close>, each pair of keys sets
  \<^verbatim>\<open>pending_dir\<close> unless the committed \<^verbatim>\<open>direction\<close> is the opposite one.
\<close>

definition steer :: "key \<Rightarrow> game \<Rightarrow> game" where
  "steer k g =
     (if alive g then
        (if k = K_UP \<or> k = K_w then
           (if direction g \<noteq> (0, 1) then g\<lparr>pending_dir := (0, -1)\<rparr> else g)
         else if k = K_DOWN \<or> k = K_s then
           (if direction g \<noteq> (0, -1) then g\<lparr>pending_dir := (0, 1)\<rparr> else g)
         else if k = K_LEFT \<or> k = K_a then
           (if direction g \<noteq> (1, 0) then g\<lparr>pending_dir := (-1, 0)\<rparr> else g)
         else if k = K_RIGHT \<or> k = K_d then
           (if direction g \<noteq> (-1, 0) then g\<lparr>pending_dir := (1, 0)\<rparr> else g)
         else g)
      else g)"

text \<open>
  The \<^verbatim>\<open>KEYDOWN\<close> branch of the event loop (lines 130 to 152). \<open>None\<close> is
  \<^verbatim>\<open>pygame.quit(); return\<close>.
\<close>

definition keydown :: "config \<Rightarrow> nat \<Rightarrow> key \<Rightarrow> game \<Rightarrow> game option" where
  "keydown cfg r k g =
     (if k = K_ESCAPE then None
      else if \<not> alive g \<and> k = K_r then Some (reset_game cfg r)
      else Some (steer k g))"

text \<open>
  The update step (lines 156 to 169). \<^verbatim>\<open>snake[0]\<close> raises \<open>IndexError\<close> on an empty
  list; \<^verbatim>\<open>snake.insert(0, new_head)\<close> is a cons and \<^verbatim>\<open>snake.pop()\<close>, on the list
  that has just grown, removes its last element.
\<close>

definition tick :: "config \<Rightarrow> nat \<Rightarrow> game \<Rightarrow> py_error + game" where
  "tick cfg r g =
     (if alive g then
        (let g1 = g\<lparr>direction := pending_dir g\<rparr>
         in case snake g1 of
              [] \<Rightarrow> Inl IndexError
            | h # _ \<Rightarrow>
                (let new_head = add h (direction g1)
                 in if \<not> inside new_head cfg \<or> new_head \<in> set (snake g1)
                    then Inr (g1\<lparr>alive := False\<rparr>)
                    else
                      (let g2 = g1\<lparr>snake := new_head # snake g1\<rparr>
                       in if new_head = food g2
                          then Inr (g2\<lparr>score := score g2 + 1,
                                        food := random_empty_cell (set (snake g2)) cfg r\<rparr>)
                          else Inr (g2\<lparr>snake := butlast (snake g2)\<rparr>))))
      else Inr g)"

section \<open>Drawing\<close>

text \<open>
  \<^verbatim>\<open>draw_cell\<close> fills one rectangle on the surface; the surface is modelled by the
  list of rectangles drawn on it, each with its colour.
\<close>

type_synonym rect = "int \<times> int \<times> int \<times> int"

definition draw_cell :: "Vec \<Rightarrow> color \<Rightarrow> config \<Rightarrow> color \<times> rect" where
  "draw_cell pos col cfg =
     (col, (fst pos * cell_size cfg, snd pos * cell_size cfg, cell_size cfg, cell_size cfg))"

text \<open>\<^verbatim>\<open># Draw food\<close> (lines 171 to 173).\<close>

definition draw_food :: "config \<Rightarrow> game \<Rightarrow> (color \<times> rect) list" where
  "draw_food cfg g = (if food g \<noteq> (-1, -1) then [draw_cell (food g) (food_color cfg) cfg] else [])"

text \<open>\<^verbatim>\<open># Draw snake\<close> (lines 175 to 179).\<close>

definition draw_snake :: "config \<Rightarrow> game \<Rightarrow> (color \<times> rect) list" where
  "draw_snake cfg g =
     (case snake g of
        [] \<Rightarrow> []
      | h # body \<Rightarrow>
          draw_cell h (head_color cfg) cfg # map (\<lambda>seg. draw_cell seg (snake_color cfg) cfg) body)"

section \<open>Runs of the loop\<close>

text \<open>
  Between two resets the loop changes the game only by direction input and by the
  update step, in any interleaving. \<open>run_actions\<close> applies such a sequence and stops
  at the first exception.
\<close>

datatype action = Tick nat | Steer key

fun run_actions :: "config \<Rightarrow> action list \<Rightarrow> game \<Rightarrow> py_error + game" where
  "run_actions cfg [] g = Inr g"
| "run_actions cfg (Tick r # as) g =
     (case tick cfg r g of Inl e \<Rightarrow> Inl e | Inr g' \<Rightarrow> run_actions cfg as g')"
| "run_actions cfg (Steer k # as) g = run_actions cfg as (steer k g)"

text \<open>
  Whether the update step from \<open>g\<close> lands the head on the item: the branch
  \<^verbatim>\<open>new_head == food\<close> is taken.
\<close>

definition eats :: "config \<Rightarrow> game \<Rightarrow> bool" where
  "eats cfg g \<longleftrightarrow>
     alive g \<and>
     (case snake g of
        [] \<Rightarrow> False
      | h # _ \<Rightarrow>
          inside (add h (pending_dir g)) cfg \<and> add h (pending_dir g) \<notin> set (snake g) \<and>
          add h (pending_dir g) = food g)"

text \<open>The number of items consumed along a run.\<close>

fun consumed :: "config \<Rightarrow> action list \<Rightarrow> game \<Rightarrow> nat" where
  "consumed cfg [] g = 0"
| "consumed cfg (Tick r # as) g =
     (case tick cfg r g of
        Inl e \<Rightarrow> 0
      | Inr g' \<Rightarrow> (if eats cfg g then 1 else 0) + consumed cfg as g')"
| "consumed cfg (Steer k # as) g = consumed cfg as (steer k g)"

section \<open>Vocabulary for direction input\<close>

text \<open>
  The opposite of a direction; the direction each key asks for, read off the four
  branches of lines 141 to 152; and, of the directions a sequence of key presses asks
  for, those that the reversal guard lets through when \<open>dir\<close> is the committed
  direction.
\<close>

definition opposite :: "Vec \<Rightarrow> Vec" where
  "opposite d = (- fst d, - snd d)"

definition key_dir :: "key \<Rightarrow> Vec option" where
  "key_dir k =
     (if k = K_UP \<or> k = K_w then Some (0, -1)
      else if k = K_DOWN \<or> k = K_s then Some (0, 1)
      else if k = K_LEFT \<or> k = K_a then Some (-1, 0)
      else if k = K_RIGHT \<or> k = K_d then Some (1, 0)
      else None)"

definition accepted :: "Vec \<Rightarrow> key list \<Rightarrow> Vec list" where
  "accepted dir ks = filter (\<lambda>d. d \<noteq> opposite dir) (List.map_filter key_dir ks)"

section \<open>Speed function\<close>

lemma current_fps_value:
  "speedup_every cfg \<noteq> 0 \<Longrightarrow>
   current_fps cfg sc = Inr (base_fps cfg + (sc div speedup_every cfg) * speedup_amount cfg)"
  by (simp add: current_fps_def)

lemma current_fps_mono_aux:
  fixes a b e m :: int
  assumes "0 < e" "0 \<le> m" "a \<le> b"
  shows "(a div e) * m \<le> (b div e) * m"
proof -
  have "a div e \<le> b div e"
    using assms(1,3) by (simp add: zdiv_mono1)
  then show ?thesis
    using assms(2) by (simp add: mult_right_mono)
qed

text \<open>
  Claim C9, as amended. With \<open>speedup_every\<close> positive and \<open>speedup_amount\<close> not
  negative (as in \<^verbatim>\<open>Config()\<close>), \<open>current_fps\<close> returns
  \<open>base_fps + (score div speedup_every) * speedup_amount\<close> for every score, never
  raises, and is monotonically non-decreasing in the score. With the default
  configuration (5, 5, 2) it yields 5 at score 0, 5 at 4, 7 at 5, 9 at 12 and 11 at 15.
\<close>

theorem current_fps_formula_monotone:
  assumes "0 < speedup_every cfg" and "0 \<le> speedup_amount cfg"
  shows "current_fps cfg sc = Inr (base_fps cfg + (sc div speedup_every cfg) * speedup_amount cfg) \<and>
         (\<forall>a b. a \<le> b \<longrightarrow>
            (\<exists>x y. current_fps cfg a = Inr x \<and> current_fps cfg b = Inr y \<and> x \<le> y)) \<and>
         current_fps Config 0 = Inr 5 \<and> current_fps Config 4 = Inr 5 \<and>
         current_fps Config 5 = Inr 7 \<and> current_fps Config 12 = Inr 9 \<and>
         current_fps Config 15 = Inr 11"
proof -
  have ne: "speedup_every cfg \<noteq> 0"
    using assms(1) by simp
  have formula: "\<And>s. current_fps cfg s =
      Inr (base_fps cfg + (s div speedup_every cfg) * speedup_amount cfg)"
    using ne by (rule current_fps_value)
  have mono: "\<forall>a b. a \<le> b \<longrightarrow>
      (\<exists>x y. current_fps cfg a = Inr x \<and> current_fps cfg b = Inr y \<and> x \<le> y)"
    using current_fps_mono_aux [OF assms] by (simp add: formula)
  have vals: "current_fps Config 0 = Inr 5 \<and> current_fps Config 4 = Inr 5 \<and>
      current_fps Config 5 = Inr 7 \<and> current_fps Config 12 = Inr 9 \<and>
      current_fps Config 15 = Inr 11"
    by (simp add: current_fps_def Config_def)
  show ?thesis
    using formula mono vals by blast
qed

theorem current_fps_formula_monotone_witness:
  "0 < speedup_every Config \<and> 0 \<le> speedup_amount Config \<and>
   current_fps Config 23 = Inr 13 \<and>
   (\<exists>x y. current_fps Config 9 = Inr x \<and> current_fps Config 10 = Inr y \<and> x \<le> y)"
proof -
  have e: "0 < speedup_every Config" and m: "0 \<le> speedup_amount Config"
    by (simp_all add: Config_def)
  have le: "(9::int) \<le> 10" by simp
  from current_fps_formula_monotone [OF e m, of 23] le e m show ?thesis
    by (simp add: Config_def)
qed

text \<open>
  Claim C9 as written gives 7 at score 12. The code computes
  \<open>5 + (12 div 5) * 2 = 9\<close> there.
\<close>

theorem current_fps_at_12_counterexample: "current_fps Config 12 \<noteq> Inr 7"
  by (simp add: current_fps_def Config_def)

section \<open>The update step\<close>

text \<open>
  Claim C6. When the game is over (\<open>alive\<close> is false) the update step returns the
  state it was given: the alive flag, the chain, the score, the item, the committed and
  the pending direction are all unchanged, and nothing is raised.
\<close>

theorem tick_game_over_noop: "\<not> alive g \<Longrightarrow> tick cfg r g = Inr g"
  by (simp add: tick_def)

theorem tick_game_over_noop_witness:
  "\<not> alive \<lparr>snake = [(0, 2), (1, 2)], direction = (-1, 0), pending_dir = (0, 1),
            alive = False, score = 4, food = (3, 3)\<rparr> \<and>
   tick Config 7 \<lparr>snake = [(0, 2), (1, 2)], direction = (-1, 0), pending_dir = (0, 1),
            alive = False, score = 4, food = (3, 3)\<rparr>
     = Inr \<lparr>snake = [(0, 2), (1, 2)], direction = (-1, 0), pending_dir = (0, 1),
            alive = False, score = 4, food = (3, 3)\<rparr>"
  using tick_game_over_noop [of "\<lparr>snake = [(0, 2), (1, 2)], direction = (-1, 0),
      pending_dir = (0, 1), alive = False, score = 4, food = (3, 3)\<rparr>" Config 7]
  by simp

text \<open>
  Claim C2. In an alive state with head \<open>h\<close>, let \<open>new_head\<close> be \<open>h\<close> plus the
  direction the step commits (the pending one). If \<open>new_head\<close> is outside the grid or
  is any cell of the chain before the move, the tail included, the step ends the game
  and leaves the chain, the score and the item as they were.
\<close>

theorem tick_collision:
  assumes "alive g" and "snake g = h # t" and "new_head = add h (pending_dir g)"
    and "\<not> inside new_head cfg \<or> new_head \<in> set (snake g)"
  shows "\<exists>g'. tick cfg r g = Inr g' \<and> \<not> alive g' \<and> snake g' = snake g \<and>
           score g' = score g \<and> food g' = food g"
  using assms by (auto simp: tick_def Let_def)

theorem tick_collision_witness:
  "alive \<lparr>snake = [(0, 2), (1, 2)], direction = (-1, 0), pending_dir = (-1, 0),
          alive = True, score = 0, food = (3, 3)\<rparr> \<and>
   \<not> inside (add (0, 2) (-1, 0)) (Config\<lparr>grid_width := 5, grid_height := 5\<rparr>) \<and>
   tick (Config\<lparr>grid_width := 5, grid_height := 5\<rparr>) 0
     \<lparr>snake = [(0, 2), (1, 2)], direction = (-1, 0), pending_dir = (-1, 0),
      alive = True, score = 0, food = (3, 3)\<rparr>
     = Inr \<lparr>snake = [(0, 2), (1, 2)], direction = (-1, 0), pending_dir = (-1, 0),
            alive = False, score = 0, food = (3, 3)\<rparr> \<and>
   add (1, 1) (1, 0) \<in> set [(1, 1), (1, 2), (2, 2), (2, 1)] \<and>
   tick (Config\<lparr>grid_width := 5, grid_height := 5\<rparr>) 0
     \<lparr>snake = [(1, 1), (1, 2), (2, 2), (2, 1)], direction = (0, -1), pending_dir = (1, 0),
      alive = True, score = 1, food = (3, 3)\<rparr>
     = Inr \<lparr>snake = [(1, 1), (1, 2), (2, 2), (2, 1)], direction = (1, 0), pending_dir = (1, 0),
            alive = False, score = 1, food = (3, 3)\<rparr>"
  using
    tick_collision [of "\<lparr>snake = [(0, 2), (1, 2)], direction = (-1, 0), pending_dir = (-1, 0),
        alive = True, score = 0, food = (3, 3)\<rparr>" "(0, 2)" "[(1, 2)]" "(-1, 2)"
        "Config\<lparr>grid_width := 5, grid_height := 5\<rparr>" 0]
    tick_collision [of "\<lparr>snake = [(1, 1), (1, 2), (2, 2), (2, 1)], direction = (0, -1),
        pending_dir = (1, 0), alive = True, score = 1, food = (3, 3)\<rparr>" "(1, 1)"
        "[(1, 2), (2, 2), (2, 1)]" "(2, 1)" "Config\<lparr>grid_width := 5, grid_height := 5\<rparr>" 0]
  by (simp add: tick_def add_def inside_def Config_def)

text \<open>
  Claim C1. In an alive state with head \<open>h\<close>, let \<open>new_head\<close> be \<open>h\<close> plus the
  direction the step commits. If \<open>new_head\<close> is inside the grid and not in the chain
  before the move, the step returns an alive state. If \<open>new_head\<close> is the item,
  the new chain is \<open>new_head\<close> in front of the whole old chain (one cell longer), the
  score is one more and the item is sampled again over the cells of the new chain.
  Otherwise the new chain is \<open>new_head\<close> in front of the old chain without its last
  cell (the same length) and the score and the item are unchanged.
\<close>

theorem tick_move_or_grow:
  assumes "alive g" and "snake g = h # t" and "new_head = add h (pending_dir g)"
    and "inside new_head cfg" and "new_head \<notin> set (snake g)"
  shows "\<exists>g'. tick cfg r g = Inr g' \<and> alive g' \<and>
           (if new_head = food g
            then snake g' = new_head # snake g \<and> length (snake g') = length (snake g) + 1 \<and>
                 score g' = score g + 1 \<and>
                 food g' = random_empty_cell (set (new_head # snake g)) cfg r
            else snake g' = new_head # butlast (snake g) \<and>
                 length (snake g') = length (snake g) \<and>
                 score g' = score g \<and> food g' = food g)"
  using assms by (auto simp: tick_def Let_def)

lemma grow_example:
  "tick (Config\<lparr>grid_width := 5, grid_height := 5\<rparr>) 0
     \<lparr>snake = [(2, 2), (1, 2), (0, 2)], direction = (1, 0), pending_dir = (1, 0),
      alive = True, score = 0, food = (3, 2)\<rparr>
     = Inr \<lparr>snake = [(3, 2), (2, 2), (1, 2), (0, 2)], direction = (1, 0), pending_dir = (1, 0),
            alive = True, score = 1, food = (0, 0)\<rparr>"
  by code_simp

theorem tick_move_or_grow_witness:
  "alive \<lparr>snake = [(2, 2), (1, 2), (0, 2)], direction = (1, 0), pending_dir = (1, 0),
          alive = True, score = 0, food = (3, 2)\<rparr> \<and>
   inside (add (2, 2) (1, 0)) (Config\<lparr>grid_width := 5, grid_height := 5\<rparr>) \<and>
   add (2, 2) (1, 0) \<notin> set [(2, 2), (1, 2), (0, 2)] \<and>
   tick (Config\<lparr>grid_width := 5, grid_height := 5\<rparr>) 0
     \<lparr>snake = [(2, 2), (1, 2), (0, 2)], direction = (1, 0), pending_dir = (1, 0),
      alive = True, score = 0, food = (3, 2)\<rparr>
     = Inr \<lparr>snake = [(3, 2), (2, 2), (1, 2), (0, 2)], direction = (1, 0), pending_dir = (1, 0),
            alive = True, score = 1, food = (0, 0)\<rparr> \<and>
   tick (Config\<lparr>grid_width := 5, grid_height := 5\<rparr>) 0
     \<lparr>snake = [(2, 2), (1, 2), (0, 2)], direction = (1, 0), pending_dir = (0, 1),
      alive = True, score = 0, food = (3, 2)\<rparr>
     = Inr \<lparr>snake = [(2, 3), (2, 2), (1, 2)], direction = (0, 1), pending_dir = (0, 1),
            alive = True, score = 0, food = (3, 2)\<rparr>"
  using
    tick_move_or_grow [of "\<lparr>snake = [(2, 2), (1, 2), (0, 2)], direction = (1, 0),
        pending_dir = (1, 0), alive = True, score = 0, food = (3, 2)\<rparr>" "(2, 2)"
        "[(1, 2), (0, 2)]" "(3, 2)" "Config\<lparr>grid_width := 5, grid_height := 5\<rparr>" 0]
    tick_move_or_grow [of "\<lparr>snake = [(2, 2), (1, 2), (0, 2)], direction = (1, 0),
        pending_dir = (0, 1), alive = True, score = 0, food = (3, 2)\<rparr>" "(2, 2)"
        "[(1, 2), (0, 2)]" "(2, 3)" "Config\<lparr>grid_width := 5, grid_height := 5\<rparr>" 0]
    grow_example
  by (simp add: tick_def add_def inside_def Config_def)

section \<open>Direction input\<close>

lemma steer_frame:
  "alive (steer k g) = alive g \<and> direction (steer k g) = direction g \<and>
   snake (steer k g) = snake g \<and> score (steer k g) = score g \<and> food (steer k g) = food g"
  by (simp add: steer_def)

lemma steer_key_dir:
  "alive g \<Longrightarrow>
   steer k g = (case key_dir k of
                  None \<Rightarrow> g
                | Some d \<Rightarrow> if d = opposite (direction g) then g else g\<lparr>pending_dir := d\<rparr>)"
  by (cases "direction g") (auto simp: steer_def key_dir_def opposite_def)

lemma fold_steer_frame:
  "alive (fold steer ks g) = alive g \<and> direction (fold steer ks g) = direction g \<and>
   snake (fold steer ks g) = snake g \<and> score (fold steer ks g) = score g \<and>
   food (fold steer ks g) = food g"
  by (induction ks arbitrary: g) (simp_all add: steer_frame)

lemma accepted_Cons:
  "accepted dir (k # ks) =
     (case key_dir k of
        None \<Rightarrow> accepted dir ks
      | Some d \<Rightarrow> if d = opposite dir then accepted dir ks else d # accepted dir ks)"
  by (simp add: accepted_def List.map_filter_simps split: option.splits)

lemma fold_steer_pending:
  "alive g \<Longrightarrow>
   pending_dir (fold steer ks g) =
     (if accepted (direction g) ks = [] then pending_dir g else last (accepted (direction g) ks))"
proof (induction ks arbitrary: g)
  case Nil
  then show ?case by (simp add: accepted_def List.map_filter_simps)
next
  case (Cons k ks)
  have a: "alive (steer k g)" and d: "direction (steer k g) = direction g"
    using Cons.prems by (simp_all add: steer_frame)
  have "pending_dir (fold steer (k # ks) g) = pending_dir (fold steer ks (steer k g))"
    by simp
  also have "\<dots> = (if accepted (direction g) ks = [] then pending_dir (steer k g)
                    else last (accepted (direction g) ks))"
    using Cons.IH [OF a] by (simp add: d)
  finally show ?case
    using Cons.prems
    by (simp add: accepted_Cons steer_key_dir split: option.splits)
qed

lemma tick_commits:
  "alive g \<Longrightarrow> snake g \<noteq> [] \<Longrightarrow> \<exists>g'. tick cfg r g = Inr g' \<and> direction g' = pending_dir g"
  by (cases "snake g") (auto simp: tick_def Let_def)

text \<open>
  Claim C5. Direction input changes nothing unless the game is alive. In an alive
  state, a key that asks for direction \<open>d\<close> leaves the state as it is when \<open>d\<close> is
  the exact opposite of the committed direction, and otherwise sets the pending
  direction to \<open>d\<close>; any other key changes nothing. After any sequence of key presses
  between two update steps, the next step commits the last direction that was let
  through, or the pending direction from before the presses when none was.
\<close>

theorem steer_pending_direction:
  "(\<not> alive g \<longrightarrow> steer k g = g) \<and>
   (alive g \<longrightarrow>
      (case key_dir k of
         None \<Rightarrow> steer k g = g
       | Some d \<Rightarrow>
           steer k g = (if d = opposite (direction g) then g else g\<lparr>pending_dir := d\<rparr>))) \<and>
   (alive g \<longrightarrow> snake g \<noteq> [] \<longrightarrow>
      (\<exists>g'. tick cfg r (fold steer ks g) = Inr g' \<and>
            direction g' = (if accepted (direction g) ks = [] then pending_dir g
                            else last (accepted (direction g) ks))))"
proof (intro conjI impI)
  assume "\<not> alive g"
  then show "steer k g = g" by (simp add: steer_def)
next
  assume "alive g"
  then show "case key_dir k of
         None \<Rightarrow> steer k g = g
       | Some d \<Rightarrow>
           steer k g = (if d = opposite (direction g) then g else g\<lparr>pending_dir := d\<rparr>)"
    by (simp add: steer_key_dir split: option.splits)
next
  assume a: "alive g" and n: "snake g \<noteq> []"
  have "alive (fold steer ks g)" and "snake (fold steer ks g) \<noteq> []"
    using a n by (simp_all add: fold_steer_frame)
  then obtain g' where "tick cfg r (fold steer ks g) = Inr g'"
    and "direction g' = pending_dir (fold steer ks g)"
    using tick_commits by blast
  then show "\<exists>g'. tick cfg r (fold steer ks g) = Inr g' \<and>
            direction g' = (if accepted (direction g) ks = [] then pending_dir g
                            else last (accepted (direction g) ks))"
    using fold_steer_pending [OF a] by simp
qed

lemma steer_example:
  "accepted (1, 0) [K_UP, K_LEFT, K_s, K_r, K_a] = [(0, -1), (0, 1)] \<and>
   tick (Config\<lparr>grid_width := 5, grid_height := 5\<rparr>) 0
     (fold steer [K_UP, K_LEFT, K_s, K_r, K_a]
        \<lparr>snake = [(2, 2), (1, 2), (0, 2)], direction = (1, 0), pending_dir = (1, 0),
         alive = True, score = 0, food = (3, 2)\<rparr>)
     = Inr \<lparr>snake = [(2, 3), (2, 2), (1, 2)], direction = (0, 1), pending_dir = (0, 1),
            alive = True, score = 0, food = (3, 2)\<rparr>"
  by code_simp

theorem steer_pending_direction_witness:
  "alive \<lparr>snake = [(2, 2), (1, 2), (0, 2)], direction = (1, 0), pending_dir = (1, 0),
          alive = True, score = 0, food = (3, 2)\<rparr> \<and>
   key_dir K_a = Some (-1, 0) \<and> (-1, 0) = opposite (1, 0) \<and>
   steer K_a \<lparr>snake = [(2, 2), (1, 2), (0, 2)], direction = (1, 0), pending_dir = (1, 0),
          alive = True, score = 0, food = (3, 2)\<rparr>
     = \<lparr>snake = [(2, 2), (1, 2), (0, 2)], direction = (1, 0), pending_dir = (1, 0),
          alive = True, score = 0, food = (3, 2)\<rparr> \<and>
   (\<exists>g'. tick (Config\<lparr>grid_width := 5, grid_height := 5\<rparr>) 0
           (fold steer [K_UP, K_LEFT, K_s, K_r, K_a]
             \<lparr>snake = [(2, 2), (1, 2), (0, 2)], direction = (1, 0), pending_dir = (1, 0),
              alive = True, score = 0, food = (3, 2)\<rparr>) = Inr g' \<and>
         direction g' = (0, 1))"
  using
    steer_pending_direction [of "\<lparr>snake = [(2, 2), (1, 2), (0, 2)], direction = (1, 0),
        pending_dir = (1, 0), alive = True, score = 0, food = (3, 2)\<rparr>" K_a
        "Config\<lparr>grid_width := 5, grid_height := 5\<rparr>" 0 "[K_UP, K_LEFT, K_s, K_r, K_a]"]
    steer_example
  by (simp add: key_dir_def opposite_def)

section \<open>Sampler, reset and the full board\<close>

lemma set_empties:
  "set (empties occupied cfg) = {c. inside c cfg \<and> c \<notin> occupied}"
  by (auto simp: empties_def inside_def)

lemma empties_Nil_iff:
  "empties occupied cfg = [] \<longleftrightarrow> (\<forall>c. inside c cfg \<longrightarrow> c \<in> occupied)"
proof -
  have "empties occupied cfg = [] \<longleftrightarrow> set (empties occupied cfg) = {}"
    by simp
  then show ?thesis
    by (auto simp: set_empties)
qed

lemma random_empty_cell_cases:
  "(empties occupied cfg = [] \<and> random_empty_cell occupied cfg r = (-1, -1)) \<or>
   (empties occupied cfg \<noteq> [] \<and> inside (random_empty_cell occupied cfg r) cfg \<and>
    random_empty_cell occupied cfg r \<notin> occupied)"
proof (cases "empties occupied cfg = []")
  case True
  then show ?thesis by (simp add: random_empty_cell_def)
next
  case False
  then have "empties occupied cfg ! (r mod length (empties occupied cfg))
      \<in> set (empties occupied cfg)"
    by simp
  then show ?thesis
    using False by (simp add: random_empty_cell_def Let_def set_empties)
qed

lemma sentinel_outside: "\<not> inside (-1, -1) cfg"
  by (simp add: inside_def)

lemma random_empty_cell_sentinel_iff:
  "random_empty_cell occupied cfg r = (-1, -1) \<longleftrightarrow> empties occupied cfg = []"
  using random_empty_cell_cases [of occupied cfg r] sentinel_outside [of cfg] by auto

lemma grid_cells:
  "{c. inside c cfg} = {0..grid_width cfg - 1} \<times> {0..grid_height cfg - 1}"
  by (auto simp: inside_def)

lemma card_grid:
  assumes "0 \<le> grid_width cfg" and "0 \<le> grid_height cfg"
  shows "int (card {c. inside c cfg}) = grid_width cfg * grid_height cfg"
  using assms by (simp add: grid_cells card_cartesian_product)

text \<open>
  Claim C3, as amended. For every occupied set and all grid dimensions, the sampler
  returns either the board-full value \<open>(-1, -1)\<close> or a cell inside the grid that is
  not a member of the occupied set; so it never returns a member of an occupied set
  that does not hold the pair \<open>(-1, -1)\<close> itself. It returns the board-full value if
  and only if every cell of the grid is occupied. When the grid dimensions are not
  negative and every occupied cell lies inside the grid, that is the case if and only
  if the size of the occupied set is \<open>grid_width * grid_height\<close>.
\<close>

theorem random_empty_cell_sound:
  "(random_empty_cell occupied cfg r = (-1, -1) \<or>
      inside (random_empty_cell occupied cfg r) cfg \<and>
      random_empty_cell occupied cfg r \<notin> occupied) \<and>
   ((-1, -1) \<notin> occupied \<longrightarrow> random_empty_cell occupied cfg r \<notin> occupied) \<and>
   (random_empty_cell occupied cfg r = (-1, -1) \<longleftrightarrow> (\<forall>c. inside c cfg \<longrightarrow> c \<in> occupied)) \<and>
   ((\<forall>c\<in>occupied. inside c cfg) \<and> 0 \<le> grid_width cfg \<and> 0 \<le> grid_height cfg \<longrightarrow>
      (random_empty_cell occupied cfg r = (-1, -1) \<longleftrightarrow>
         int (card occupied) = grid_width cfg * grid_height cfg))"
proof (intro conjI impI)
  show "random_empty_cell occupied cfg r = (-1, -1) \<or>
      inside (random_empty_cell occupied cfg r) cfg \<and>
      random_empty_cell occupied cfg r \<notin> occupied"
    using random_empty_cell_cases [of occupied cfg r] by blast
next
  assume "(-1, -1) \<notin> occupied"
  then show "random_empty_cell occupied cfg r \<notin> occupied"
    using random_empty_cell_cases [of occupied cfg r] by auto
next
  show "random_empty_cell occupied cfg r = (-1, -1) \<longleftrightarrow> (\<forall>c. inside c cfg \<longrightarrow> c \<in> occupied)"
    by (simp only: random_empty_cell_sentinel_iff empties_Nil_iff)
next
  assume h: "(\<forall>c\<in>occupied. inside c cfg) \<and> 0 \<le> grid_width cfg \<and> 0 \<le> grid_height cfg"
  let ?grid = "{c. inside c cfg}"
  have fin: "finite ?grid"
    by (simp add: grid_cells)
  have sub: "occupied \<subseteq> ?grid"
    using h by auto
  have "empties occupied cfg = [] \<longleftrightarrow> occupied = ?grid"
    using sub by (auto simp: empties_Nil_iff)
  also have "\<dots> \<longleftrightarrow> card occupied = card ?grid"
    using card_subset_eq [OF fin sub] by auto
  also have "\<dots> \<longleftrightarrow> int (card occupied) = grid_width cfg * grid_height cfg"
    using card_grid [of cfg] h by auto
  finally show "random_empty_cell occupied cfg r = (-1, -1) \<longleftrightarrow>
      int (card occupied) = grid_width cfg * grid_height cfg"
    by (simp add: random_empty_cell_sentinel_iff)
qed

lemma sampler_examples:
  "random_empty_cell {(0, 0), (1, 0)} (Config\<lparr>grid_width := 2, grid_height := 1\<rparr>) 3 = (-1, -1) \<and>
   random_empty_cell {(1, 0)} (Config\<lparr>grid_width := 2, grid_height := 2\<rparr>) 4 = (0, 1) \<and>
   random_empty_cell {(5, 5)} (Config\<lparr>grid_width := 1, grid_height := 1\<rparr>) 0 = (0, 0) \<and>
   random_empty_cell {} (Config\<lparr>grid_width := - 1, grid_height := - 1\<rparr>) 0 = (-1, -1)"
  by code_simp

theorem random_empty_cell_sound_witness:
  "inside (0, 0) (Config\<lparr>grid_width := 2, grid_height := 1\<rparr>) \<and>
   inside (1, 0) (Config\<lparr>grid_width := 2, grid_height := 1\<rparr>) \<and>
   random_empty_cell {(0, 0), (1, 0)} (Config\<lparr>grid_width := 2, grid_height := 1\<rparr>) 3 = (-1, -1) \<and>
   0 \<le> grid_width (Config\<lparr>grid_width := 2, grid_height := 1\<rparr>) \<and>
   0 \<le> grid_height (Config\<lparr>grid_width := 2, grid_height := 1\<rparr>) \<and>
   int (card {(0::int, 0::int), (1, 0)}) = 2 * 1 \<and>
   inside (1, 0) (Config\<lparr>grid_width := 2, grid_height := 2\<rparr>) \<and>
   random_empty_cell {(1, 0)} (Config\<lparr>grid_width := 2, grid_height := 2\<rparr>) 4 = (0, 1) \<and>
   inside (0, 1) (Config\<lparr>grid_width := 2, grid_height := 2\<rparr>) \<and>
   (0, 1) \<notin> {(1::int, 0::int)} \<and> int (card {(1::int, 0::int)}) \<noteq> 2 * 2 \<and>
   (-1, -1) \<notin> {(5::int, 5::int)} \<and>
   random_empty_cell {(5, 5)} (Config\<lparr>grid_width := 1, grid_height := 1\<rparr>) 0 = (0, 0) \<and>
   inside (0, 0) (Config\<lparr>grid_width := 1, grid_height := 1\<rparr>) \<and>
   random_empty_cell {(5, 5)} (Config\<lparr>grid_width := 1, grid_height := 1\<rparr>) 0 \<notin> {(5, 5)}"
proof -
  note full = random_empty_cell_sound [of "{(0, 0), (1, 0)}"
      "Config\<lparr>grid_width := 2, grid_height := 1\<rparr>" 3]
  note part = random_empty_cell_sound [of "{(1, 0)}"
      "Config\<lparr>grid_width := 2, grid_height := 2\<rparr>" 4]
  note out = random_empty_cell_sound [of "{(5, 5)}"
      "Config\<lparr>grid_width := 1, grid_height := 1\<rparr>" 0]
  have a: "inside (0, 0) (Config\<lparr>grid_width := 2, grid_height := 1\<rparr>) \<and>
      inside (1, 0) (Config\<lparr>grid_width := 2, grid_height := 1\<rparr>) \<and>
      inside (1, 0) (Config\<lparr>grid_width := 2, grid_height := 2\<rparr>) \<and>
      inside (0, 1) (Config\<lparr>grid_width := 2, grid_height := 2\<rparr>) \<and>
      inside (0, 0) (Config\<lparr>grid_width := 1, grid_height := 1\<rparr>)"
    by (simp add: inside_def Config_def)
  have hf: "(\<forall>c\<in>{(0, 0), (1, 0)}. inside c (Config\<lparr>grid_width := 2, grid_height := 1\<rparr>)) \<and>
      0 \<le> grid_width (Config\<lparr>grid_width := 2, grid_height := 1\<rparr>) \<and>
      0 \<le> grid_height (Config\<lparr>grid_width := 2, grid_height := 1\<rparr>)"
    using a by simp
  have hp: "(\<forall>c\<in>{(1, 0)}. inside c (Config\<lparr>grid_width := 2, grid_height := 2\<rparr>)) \<and>
      0 \<le> grid_width (Config\<lparr>grid_width := 2, grid_height := 2\<rparr>) \<and>
      0 \<le> grid_height (Config\<lparr>grid_width := 2, grid_height := 2\<rparr>)"
    using a by simp
  have c1: "int (card {(0::int, 0::int), (1, 0)}) = 2 * 1"
    using full hf sampler_examples by simp
  have c2: "int (card {(1::int, 0::int)}) \<noteq> 2 * 2"
    using part hp sampler_examples by simp
  have o: "(-1, -1) \<notin> {(5::int, 5::int)}"
    by simp
  have n: "random_empty_cell {(5, 5)} (Config\<lparr>grid_width := 1, grid_height := 1\<rparr>) 0 \<notin> {(5, 5)}"
    using out o by blast
  show ?thesis
    using a hf c1 c2 o n sampler_examples by simp
qed

text \<open>
  Claim C3 as written speaks of every occupied set and all grid dimensions. On a grid
  of one cell with the occupied set \<open>{(5, 5)}\<close>, whose size is \<open>1 * 1\<close>, the
  sampler returns the free cell \<open>(0, 0)\<close> and not the board-full value. With both
  dimensions \<open>-1\<close> the grid has no cell, so the sampler returns the board-full value
  for the empty occupied set, whose size is not \<open>(-1) * (-1)\<close>.
\<close>

theorem random_empty_cell_full_iff_counterexample:
  "\<not> (random_empty_cell {(5, 5)} (Config\<lparr>grid_width := 1, grid_height := 1\<rparr>) 0 = (-1, -1) \<longleftrightarrow>
      int (card {(5::int, 5::int)}) =
        grid_width (Config\<lparr>grid_width := 1, grid_height := 1\<rparr>) *
        grid_height (Config\<lparr>grid_width := 1, grid_height := 1\<rparr>)) \<and>
   \<not> (random_empty_cell {} (Config\<lparr>grid_width := - 1, grid_height := - 1\<rparr>) 0 = (-1, -1) \<longleftrightarrow>
      int (card ({} :: Vec set)) =
        grid_width (Config\<lparr>grid_width := - 1, grid_height := - 1\<rparr>) *
        grid_height (Config\<lparr>grid_width := - 1, grid_height := - 1\<rparr>))"
  using sampler_examples by simp

text \<open>
  Claim C7. \<^verbatim>\<open>reset_game\<close> returns a chain of exactly three cells in one row, the
  head at \<open>(grid_width div 2, grid_height div 2)\<close> and the body at the two cells to
  its left, with committed and pending direction \<open>(1, 0)\<close>, score 0, alive, and the
  item drawn by the sampler over the cells of that chain. With a grid height that is
  not negative (20 in \<^verbatim>\<open>Config()\<close>) the item is not on the chain.
\<close>

theorem reset_game_state:
  assumes "0 \<le> grid_height cfg"
  shows "snake (reset_game cfg r) =
           [(grid_width cfg div 2, grid_height cfg div 2),
            (grid_width cfg div 2 - 1, grid_height cfg div 2),
            (grid_width cfg div 2 - 2, grid_height cfg div 2)] \<and>
         length (snake (reset_game cfg r)) = 3 \<and>
         direction (reset_game cfg r) = (1, 0) \<and> pending_dir (reset_game cfg r) = (1, 0) \<and>
         score (reset_game cfg r) = 0 \<and> alive (reset_game cfg r) \<and>
         food (reset_game cfg r) = random_empty_cell (set (snake (reset_game cfg r))) cfg r \<and>
         food (reset_game cfg r) \<notin> set (snake (reset_game cfg r))"
proof -
  let ?occ = "set (snake (reset_game cfg r))"
  have y: "\<forall>c\<in>?occ. snd c = grid_height cfg div 2"
    by (simp add: reset_game_def Let_def)
  have "0 \<le> grid_height cfg div 2"
    using assms by simp
  then have "(-1, -1) \<notin> ?occ"
    using y by fastforce
  then have "random_empty_cell ?occ cfg r \<notin> ?occ"
    using random_empty_cell_cases [of ?occ cfg r] by auto
  then show ?thesis
    by (simp add: reset_game_def Let_def)
qed

lemma reset_example:
  "reset_game Config 7 =
     \<lparr>snake = [(15, 10), (14, 10), (13, 10)], direction = (1, 0), pending_dir = (1, 0),
      alive = True, score = 0, food = (7, 0)\<rparr>"
  by code_simp

theorem reset_game_state_witness:
  "0 \<le> grid_height Config \<and>
   reset_game Config 7 =
     \<lparr>snake = [(15, 10), (14, 10), (13, 10)], direction = (1, 0), pending_dir = (1, 0),
      alive = True, score = 0, food = (7, 0)\<rparr> \<and>
   food (reset_game Config 7) \<notin> set (snake (reset_game Config 7))"
proof -
  have h: "0 \<le> grid_height Config"
    by (simp add: Config_def)
  from reset_game_state [OF h, of 7] h reset_example show ?thesis
    by blast
qed

text \<open>
  Claim C8. Take an alive state whose update step lands the head on the item, and
  suppose the grid has no empty cell left once the chain has grown. Then the sampler
  returns \<open>(-1, -1)\<close>, the step raises nothing and returns an alive state whose item
  is \<open>(-1, -1)\<close>, with the chain grown and the score one more, and the drawing of the
  item draws nothing for that state.
\<close>

theorem tick_board_full:
  assumes "alive g" and "snake g = h # t" and "new_head = add h (pending_dir g)"
    and "inside new_head cfg" and "new_head \<notin> set (snake g)" and "new_head = food g"
    and "empties (set (new_head # snake g)) cfg = []"
  shows "random_empty_cell (set (new_head # snake g)) cfg r = (-1, -1) \<and>
         (\<exists>g'. tick cfg r g = Inr g' \<and> food g' = (-1, -1) \<and> alive g' \<and>
               snake g' = new_head # snake g \<and> score g' = score g + 1 \<and>
               draw_food cfg g' = [])"
  using assms by (auto simp: tick_def Let_def random_empty_cell_def draw_food_def)

lemma board_full_example:
  "empties (set [(3, 0), (2, 0), (1, 0), (0, 0)]) (Config\<lparr>grid_width := 4, grid_height := 1\<rparr>) = [] \<and>
   tick (Config\<lparr>grid_width := 4, grid_height := 1\<rparr>) 5
     \<lparr>snake = [(2, 0), (1, 0), (0, 0)], direction = (1, 0), pending_dir = (1, 0),
      alive = True, score = 0, food = (3, 0)\<rparr>
     = Inr \<lparr>snake = [(3, 0), (2, 0), (1, 0), (0, 0)], direction = (1, 0), pending_dir = (1, 0),
            alive = True, score = 1, food = (-1, -1)\<rparr> \<and>
   draw_food (Config\<lparr>grid_width := 4, grid_height := 1\<rparr>)
     \<lparr>snake = [(3, 0), (2, 0), (1, 0), (0, 0)], direction = (1, 0), pending_dir = (1, 0),
      alive = True, score = 1, food = (-1, -1)\<rparr> = []"
  by code_simp

theorem tick_board_full_witness:
  "alive \<lparr>snake = [(2, 0), (1, 0), (0, 0)], direction = (1, 0), pending_dir = (1, 0),
          alive = True, score = 0, food = (3, 0)\<rparr> \<and>
   (3, 0) = add (2, 0) (1, 0) \<and>
   inside (3, 0) (Config\<lparr>grid_width := 4, grid_height := 1\<rparr>) \<and>
   (3, 0) \<notin> set [(2::int, 0::int), (1, 0), (0, 0)] \<and>
   empties (set [(3, 0), (2, 0), (1, 0), (0, 0)]) (Config\<lparr>grid_width := 4, grid_height := 1\<rparr>) = [] \<and>
   tick (Config\<lparr>grid_width := 4, grid_height := 1\<rparr>) 5
     \<lparr>snake = [(2, 0), (1, 0), (0, 0)], direction = (1, 0), pending_dir = (1, 0),
      alive = True, score = 0, food = (3, 0)\<rparr>
     = Inr \<lparr>snake = [(3, 0), (2, 0), (1, 0), (0, 0)], direction = (1, 0), pending_dir = (1, 0),
            alive = True, score = 1, food = (-1, -1)\<rparr> \<and>
   draw_food (Config\<lparr>grid_width := 4, grid_height := 1\<rparr>)
     \<lparr>snake = [(3, 0), (2, 0), (1, 0), (0, 0)], direction = (1, 0), pending_dir = (1, 0),
      alive = True, score = 1, food = (-1, -1)\<rparr> = []"
  using
    tick_board_full [of "\<lparr>snake = [(2, 0), (1, 0), (0, 0)], direction = (1, 0),
        pending_dir = (1, 0), alive = True, score = 0, food = (3, 0)\<rparr>" "(2, 0)"
        "[(1, 0), (0, 0)]" "(3, 0)" "Config\<lparr>grid_width := 4, grid_height := 1\<rparr>" 5]
    board_full_example
  by (simp add: add_def inside_def Config_def)

section \<open>Invariants of runs\<close>

lemma tick_Cons:
  assumes "alive g" and "snake g = h # t"
  shows "tick cfg r g =
     (if \<not> inside (add h (pending_dir g)) cfg \<or> add h (pending_dir g) \<in> set (snake g)
      then Inr (g\<lparr>direction := pending_dir g, alive := False\<rparr>)
      else if add h (pending_dir g) = food g
      then Inr (g\<lparr>direction := pending_dir g, snake := add h (pending_dir g) # snake g,
                  score := score g + 1,
                  food := random_empty_cell (set (add h (pending_dir g) # snake g)) cfg r\<rparr>)
      else Inr (g\<lparr>direction := pending_dir g,
                  snake := butlast (add h (pending_dir g) # snake g)\<rparr>))"
  using assms by (simp add: tick_def Let_def)

lemma tick_keeps_chain:
  assumes "snake g \<noteq> []" and "distinct (snake g)" and "\<forall>c\<in>set (snake g). inside c cfg"
  shows "\<exists>g'. tick cfg r g = Inr g' \<and> snake g' \<noteq> [] \<and> distinct (snake g') \<and>
           (\<forall>c\<in>set (snake g'). inside c cfg)"
proof (cases "alive g")
  case False
  then show ?thesis
    using assms by (simp add: tick_def)
next
  case True
  obtain h t where Cons: "snake g = h # t"
    using assms(1) by (cases "snake g") auto
  let ?n = "add h (pending_dir g)"
  note step = tick_Cons [OF True Cons, of cfg r]
  consider (hit) "\<not> inside ?n cfg \<or> ?n \<in> set (snake g)"
    | (grow) "inside ?n cfg" "?n \<notin> set (snake g)" "?n = food g"
    | (move) "inside ?n cfg" "?n \<notin> set (snake g)" "?n \<noteq> food g"
    by blast
  then show ?thesis
  proof cases
    case hit
    then have "tick cfg r g = Inr (g\<lparr>direction := pending_dir g, alive := False\<rparr>)"
      using step by simp
    then show ?thesis
      using assms by simp
  next
    case grow
    then have "tick cfg r g = Inr (g\<lparr>direction := pending_dir g, snake := ?n # snake g,
        score := score g + 1, food := random_empty_cell (set (?n # snake g)) cfg r\<rparr>)"
      using step by simp
    then show ?thesis
      using assms grow(1,2) by simp
  next
    case move
    then have res: "tick cfg r g =
        Inr (g\<lparr>direction := pending_dir g, snake := butlast (?n # snake g)\<rparr>)"
      using step by simp
    have d: "distinct (?n # snake g)" and i: "\<forall>c\<in>set (?n # snake g). inside c cfg"
      using assms move(1,2) by auto
    have "distinct (butlast (?n # snake g))"
      using d by (rule distinct_butlast)
    moreover have "\<forall>c\<in>set (butlast (?n # snake g)). inside c cfg"
      using i by (meson in_set_butlastD)
    moreover have "butlast (?n # snake g) \<noteq> []"
      using Cons by simp
    ultimately show ?thesis
      using res by simp
  qed
qed

lemma run_actions_keeps_chain:
  assumes "snake g \<noteq> []" and "distinct (snake g)" and "\<forall>c\<in>set (snake g). inside c cfg"
  shows "\<exists>g'. run_actions cfg acts g = Inr g' \<and> snake g' \<noteq> [] \<and> distinct (snake g') \<and>
           (\<forall>c\<in>set (snake g'). inside c cfg)"
  using assms
proof (induction acts arbitrary: g)
  case Nil
  then show ?case by simp
next
  case (Cons a acts)
  show ?case
  proof (cases a)
    case (Tick r)
    obtain g1 where t: "tick cfg r g = Inr g1" and "snake g1 \<noteq> []" "distinct (snake g1)"
      "\<forall>c\<in>set (snake g1). inside c cfg"
      using tick_keeps_chain [OF Cons.prems] by blast
    then show ?thesis
      using Cons.IH [of g1] Tick by simp
  next
    case (Steer k)
    have "snake (steer k g) \<noteq> []" "distinct (snake (steer k g))"
      "\<forall>c\<in>set (snake (steer k g)). inside c cfg"
      using Cons.prems by (simp_all add: steer_frame)
    then show ?thesis
      using Cons.IH [of "steer k g"] Steer by simp
  qed
qed

lemma reset_game_chain:
  assumes "4 \<le> grid_width cfg" and "1 \<le> grid_height cfg"
  shows "snake (reset_game cfg r) \<noteq> [] \<and> distinct (snake (reset_game cfg r)) \<and>
         (\<forall>c\<in>set (snake (reset_game cfg r)). inside c cfg)"
proof -
  have "2 \<le> grid_width cfg div 2" "grid_width cfg div 2 < grid_width cfg"
    "0 \<le> grid_height cfg div 2" "grid_height cfg div 2 < grid_height cfg"
    using assms by linarith+
  then show ?thesis
    by (simp add: reset_game_def Let_def inside_def)
qed

text \<open>
  Claim C4. On a grid at least 4 cells wide and 1 cell high (\<^verbatim>\<open>Config()\<close> is
  30 by 20), every run of update steps and direction inputs from a reset state raises
  nothing and ends in a state whose chain cells are pairwise distinct and all inside the
  grid.
\<close>

theorem chain_distinct_inside:
  assumes "4 \<le> grid_width cfg" and "1 \<le> grid_height cfg"
  shows "\<exists>g'. run_actions cfg acts (reset_game cfg r) = Inr g' \<and> distinct (snake g') \<and>
           (\<forall>c\<in>set (snake g'). inside c cfg)"
  using run_actions_keeps_chain [of "reset_game cfg r" cfg acts] reset_game_chain [OF assms, of r]
  by blast

lemma tick_score_length:
  assumes "snake g \<noteq> []"
  shows "\<exists>g'. tick cfg r g = Inr g' \<and> snake g' \<noteq> [] \<and>
           score g' - int (length (snake g')) = score g - int (length (snake g)) \<and>
           score g' = score g + (if eats cfg g then 1 else 0)"
proof (cases "snake g")
  case Nil
  with assms show ?thesis by simp
next
  case (Cons h t)
  then show ?thesis
    by (auto simp: tick_def eats_def Let_def)
qed

lemma run_actions_score_length:
  assumes "snake g \<noteq> []"
  shows "\<exists>g'. run_actions cfg acts g = Inr g' \<and> snake g' \<noteq> [] \<and>
           score g' - int (length (snake g')) = score g - int (length (snake g)) \<and>
           score g' = score g + int (consumed cfg acts g)"
  using assms
proof (induction acts arbitrary: g)
  case Nil
  then show ?case by simp
next
  case (Cons a acts)
  show ?case
  proof (cases a)
    case (Tick r)
    obtain g1 where t: "tick cfg r g = Inr g1" and n: "snake g1 \<noteq> []"
      and d: "score g1 - int (length (snake g1)) = score g - int (length (snake g))"
      and s: "score g1 = score g + (if eats cfg g then 1 else 0)"
      using tick_score_length [OF Cons.prems] by blast
    obtain g' where "run_actions cfg acts g1 = Inr g'" "snake g' \<noteq> []"
      "score g' - int (length (snake g')) = score g1 - int (length (snake g1))"
      "score g' = score g1 + int (consumed cfg acts g1)"
      using Cons.IH [OF n] by blast
    then show ?thesis
      using Tick t d s by simp
  next
    case (Steer k)
    have n: "snake (steer k g) \<noteq> []"
      using Cons.prems by (simp add: steer_frame)
    obtain g' where "run_actions cfg acts (steer k g) = Inr g'" "snake g' \<noteq> []"
      "score g' - int (length (snake g')) = score (steer k g) - int (length (snake (steer k g)))"
      "score g' = score (steer k g) + int (consumed cfg acts (steer k g))"
      using Cons.IH [OF n] by blast
    then show ?thesis
      using Steer by (simp add: steer_frame)
  qed
qed

text \<open>
  Claim C10. Every run of update steps and direction inputs from a reset state, with no
  reset in between, raises nothing and ends in a state where the score is the chain
  length minus 3, the chain has at least 3 cells (so it is not empty and its head
  exists), and the score is the number of items consumed along the run.
\<close>

theorem score_is_growth:
  "\<exists>g'. run_actions cfg acts (reset_game cfg r) = Inr g' \<and>
        score g' = int (length (snake g')) - 3 \<and> 3 \<le> length (snake g') \<and>
        snake g' \<noteq> [] \<and> score g' = int (consumed cfg acts (reset_game cfg r))"
proof -
  have n: "snake (reset_game cfg r) \<noteq> []"
    and l: "length (snake (reset_game cfg r)) = 3" and s: "score (reset_game cfg r) = 0"
    by (simp_all add: reset_game_def Let_def)
  obtain g' where run: "run_actions cfg acts (reset_game cfg r) = Inr g'" and "snake g' \<noteq> []"
    and d: "score g' - int (length (snake g')) =
        score (reset_game cfg r) - int (length (snake (reset_game cfg r)))"
    and c: "score g' = score (reset_game cfg r) + int (consumed cfg acts (reset_game cfg r))"
    using run_actions_score_length [OF n] by blast
  have "score g' = int (length (snake g')) - 3"
    using d l s by simp
  moreover have "0 \<le> score g'"
    using c s by simp
  ultimately have "3 \<le> length (snake g')"
    by linarith
  then show ?thesis
    using run \<open>snake g' \<noteq> []\<close> \<open>score g' = int (length (snake g')) - 3\<close> c s by simp
qed

lemma run_example:
  "run_actions (Config\<lparr>grid_width := 5, grid_height := 5\<rparr>)
     [Tick 0, Steer K_UP, Tick 0, Tick 0, Steer K_LEFT, Tick 0, Tick 0]
     (reset_game (Config\<lparr>grid_width := 5, grid_height := 5\<rparr>) 2)
   = Inr \<lparr>snake = [(1, 0), (2, 0), (3, 0), (3, 1)], direction = (-1, 0), pending_dir = (-1, 0),
          alive = True, score = 1, food = (0, 0)\<rparr> \<and>
   consumed (Config\<lparr>grid_width := 5, grid_height := 5\<rparr>)
     [Tick 0, Steer K_UP, Tick 0, Tick 0, Steer K_LEFT, Tick 0, Tick 0]
     (reset_game (Config\<lparr>grid_width := 5, grid_height := 5\<rparr>) 2) = 1"
  by code_simp

theorem chain_distinct_inside_witness:
  "4 \<le> grid_width (Config\<lparr>grid_width := 5, grid_height := 5\<rparr>) \<and> 1 \<le> grid_height (Config\<lparr>grid_width := 5, grid_height := 5\<rparr>) \<and>
   run_actions (Config\<lparr>grid_width := 5, grid_height := 5\<rparr>)
     [Tick 0, Steer K_UP, Tick 0, Tick 0, Steer K_LEFT, Tick 0, Tick 0]
     (reset_game (Config\<lparr>grid_width := 5, grid_height := 5\<rparr>) 2)
   = Inr \<lparr>snake = [(1, 0), (2, 0), (3, 0), (3, 1)], direction = (-1, 0), pending_dir = (-1, 0),
          alive = True, score = 1, food = (0, 0)\<rparr> \<and>
   distinct [(1::int, 0::int), (2, 0), (3, 0), (3, 1)] \<and>
   list_all (\<lambda>c. inside c (Config\<lparr>grid_width := 5, grid_height := 5\<rparr>)) [(1, 0), (2, 0), (3, 0), (3, 1)] \<and>
   (\<exists>g'. run_actions Config [Tick 3, Steer K_w, Tick 1] (reset_game Config 7) = Inr g' \<and>
         distinct (snake g') \<and> list_all (\<lambda>c. inside c Config) (snake g'))"
proof -
  have w: "4 \<le> grid_width (Config\<lparr>grid_width := 5, grid_height := 5\<rparr>)" and h: "1 \<le> grid_height (Config\<lparr>grid_width := 5, grid_height := 5\<rparr>)"
    and w': "4 \<le> grid_width Config" and h': "1 \<le> grid_height Config"
    by (simp_all add: Config_def)
  from chain_distinct_inside [OF w h,
      of "[Tick 0, Steer K_UP, Tick 0, Tick 0, Steer K_LEFT, Tick 0, Tick 0]" 2]
    chain_distinct_inside [OF w' h', of "[Tick 3, Steer K_w, Tick 1]" 7]
    run_example w h
  show ?thesis
    by (simp add: list_all_iff)
qed

theorem score_is_growth_witness:
  "run_actions (Config\<lparr>grid_width := 5, grid_height := 5\<rparr>)
     [Tick 0, Steer K_UP, Tick 0, Tick 0, Steer K_LEFT, Tick 0, Tick 0]
     (reset_game (Config\<lparr>grid_width := 5, grid_height := 5\<rparr>) 2)
   = Inr \<lparr>snake = [(1, 0), (2, 0), (3, 0), (3, 1)], direction = (-1, 0), pending_dir = (-1, 0),
          alive = True, score = 1, food = (0, 0)\<rparr> \<and>
   (1::int) = int (length [(1::int, 0::int), (2, 0), (3, 0), (3, 1)]) - 3 \<and>
   consumed (Config\<lparr>grid_width := 5, grid_height := 5\<rparr>)
     [Tick 0, Steer K_UP, Tick 0, Tick 0, Steer K_LEFT, Tick 0, Tick 0]
     (reset_game (Config\<lparr>grid_width := 5, grid_height := 5\<rparr>) 2) = 1"
  using score_is_growth [of "Config\<lparr>grid_width := 5, grid_height := 5\<rparr>"
      "[Tick 0, Steer K_UP, Tick 0, Tick 0, Steer K_LEFT, Tick 0, Tick 0]" 2]
    run_example
  by simp

end
